theory Spec2Isabelle
  imports Main "HOL-Library.Monad_Syntax"
begin

section \<open>The circular buffer of \<^verbatim>\<open>addons::CircularBuffer\<close>\<close>

text \<open>
  The class keeps four pointers into one allocated block: \<^verbatim>\<open>start\<close>, \<^verbatim>\<open>finish\<close>,
  \<^verbatim>\<open>start_of_storage\<close> and \<^verbatim>\<open>end_of_storage\<close>. The code only ever compares and subtracts
  pointers into the same block, so a pointer is modelled as its element offset from
  \<^verbatim>\<open>start_of_storage\<close> (an \<open>int\<close>, since the code forms offsets below the block as well);
  \<^verbatim>\<open>start_of_storage\<close> is therefore 0 and \<^verbatim>\<open>end_of_storage\<close> is the capacity. The block
  itself is the list \<open>storage\<close>.

  The element type is taken to be trivial (the \<^verbatim>\<open>int\<close> and \<^verbatim>\<open>double\<close> buffers of the tests):
  \<^verbatim>\<open>std::_Destroy\<close> then compiles to nothing, so destroying an element changes neither the
  block nor the markers, and the library constructs runs of elements with \<^verbatim>\<open>std::fill_n\<close>. A
  read or write outside the block and a remainder by zero are undefined behaviour: the
  operation has no result (\<open>None\<close>, or \<open>Undefined\<close>).
\<close>

record 'a buffer =
  start :: int
  finish :: int
  end_of_storage :: int
  storage :: "'a list"

definition start_of_storage :: "'a buffer \<Rightarrow> int" where
  "start_of_storage b = 0"

text \<open>What the element type and the allocator contribute: \<^verbatim>\<open>sizeof(Tp)\<close>, the allocator's
  own \<^verbatim>\<open>max_size\<close>, which requests \<^verbatim>\<open>alloc.allocate\<close> can meet (the others end in
  \<^verbatim>\<open>std::bad_alloc\<close>), the contents of a block fresh from \<^verbatim>\<open>alloc.allocate\<close> (unspecified, so a
  parameter), and the value of a value-initialised element.\<close>

record 'a traits =
  sizeof_elem :: nat
  alloc_max_size :: nat
  alloc_succeeds :: "nat \<Rightarrow> bool"
  raw_slot :: "nat \<Rightarrow> 'a"
  default_value :: 'a

text \<open>\<^verbatim>\<open>max_size()\<close>: the smaller of \<^verbatim>\<open>PTRDIFF_MAX / sizeof(Tp)\<close> and the allocator's limit.\<close>

definition max_size :: "'a traits \<Rightarrow> nat" where
  "max_size E = min ((2 ^ 63 - 1) div sizeof_elem E) (alloc_max_size E)"

datatype exn = length_error | out_of_range | bad_alloc

datatype ('r, 's) outcome = Returns 'r 's | Throws exn 's | Undefined

subsection \<open>Memory\<close>

definition deref :: "'a buffer \<Rightarrow> int \<Rightarrow> 'a option" where
  "deref b p = (if 0 \<le> p \<and> nat p < length (storage b) then Some (storage b ! nat p) else None)"

definition store :: "'a buffer \<Rightarrow> int \<Rightarrow> 'a \<Rightarrow> 'a buffer option" where
  "store b p v =
     (if 0 \<le> p \<and> nat p < length (storage b) then Some (b\<lparr>storage := (storage b)[nat p := v]\<rparr>)
      else None)"

definition swap_slots :: "'a buffer \<Rightarrow> int \<Rightarrow> int \<Rightarrow> 'a buffer option" where
  "swap_slots b p q =
     do { x \<leftarrow> deref b p; y \<leftarrow> deref b q; b1 \<leftarrow> store b p y; store b1 q x }"

text \<open>\<^verbatim>\<open>alloc.allocate(n)\<close>: a block of \<open>n\<close> raw slots, or no block when the allocator throws
  \<^verbatim>\<open>std::bad_alloc\<close>.\<close>

definition allocate :: "'a traits \<Rightarrow> nat \<Rightarrow> 'a list option" where
  "allocate E n = (if alloc_succeeds E n then Some (map (raw_slot E) [0..<n]) else None)"

subsection \<open>Size and capacity\<close>

text \<open>\<^verbatim>\<open>size()\<close> and \<^verbatim>\<open>capacity()\<close> compute a \<^verbatim>\<open>ptrdiff_t\<close> and return it as the 64-bit
  unsigned \<^verbatim>\<open>size_type\<close>.\<close>

definition to_size_type :: "int \<Rightarrow> nat" where
  "to_size_type x = nat (x mod 2 ^ 64)"

definition empty_buf :: "'a buffer \<Rightarrow> bool" where
  "empty_buf b \<longleftrightarrow> start b = finish b"

definition size_buf :: "'a buffer \<Rightarrow> nat" where
  "size_buf b =
     to_size_type
       (if start b \<le> finish b \<and> finish b \<noteq> end_of_storage b then finish b - start b
        else if finish b \<noteq> end_of_storage b
          then (finish b - start_of_storage b) + (end_of_storage b - start b)
        else end_of_storage b - start_of_storage b)"

definition capacity :: "'a buffer \<Rightarrow> nat" where
  "capacity b = to_size_type (end_of_storage b - start_of_storage b)"

subsection \<open>The iterator \<^verbatim>\<open>CBuffIterator\<close>\<close>

text \<open>An iterator is its stored pointer; the buffer it refers to is passed along, since
  every iterator operation reads the buffer's current markers.\<close>

definition begin_it :: "'a buffer \<Rightarrow> int" where
  "begin_it b = start b"

definition end_it :: "'a buffer \<Rightarrow> int" where
  "end_it b = finish b"

definition cbegin :: "'a buffer \<Rightarrow> int" where
  "cbegin b = start b"

definition cend :: "'a buffer \<Rightarrow> int" where
  "cend b = start b"

text \<open>\<^verbatim>\<open>operator++\<close> and \<^verbatim>\<open>operator--\<close>.\<close>

definition incr :: "'a buffer \<Rightarrow> int \<Rightarrow> int" where
  "incr b p =
     (if p + 1 = start b then end_of_storage b
      else if p + 1 = end_of_storage b \<and> start b \<noteq> start_of_storage b then start_of_storage b
      else p + 1)"

definition decr :: "'a buffer \<Rightarrow> int \<Rightarrow> int" where
  "decr b p =
     (if p = start b then end_of_storage b
      else let p1 = (if p = end_of_storage b then start b else p)
           in if p1 = start_of_storage b then end_of_storage b - 1 else p1 - 1)"

text \<open>\<^verbatim>\<open>operator+=\<close> and \<^verbatim>\<open>operator-=\<close> for a positive offset, after the sign test.\<close>

definition plus_pos :: "'a buffer \<Rightarrow> int \<Rightarrow> int \<Rightarrow> int option" where
  "plus_pos b p n =
     (if size_buf b = 0 then None
      else let off = n mod int (size_buf b) in
        if p + off \<ge> end_of_storage b then
          (let p' = start_of_storage b + off - (end_of_storage b - p)
           in Some (if p' = start b then end_of_storage b else p'))
        else if p + off = start b then Some (end_of_storage b)
        else Some (p + off))"

definition minus_pos :: "'a buffer \<Rightarrow> int \<Rightarrow> int \<Rightarrow> int option" where
  "minus_pos b p n =
     (if size_buf b = 0 then None
      else let off = n mod int (size_buf b);
               p1 = (if p = end_of_storage b
                     then (if start b = start_of_storage b then end_of_storage b - 1 else start b - 1)
                     else p);
               off1 = (if p = end_of_storage b then off - 1 else off)
        in if p1 - off1 < start_of_storage b
           then Some (end_of_storage b - off1 + (p1 - start_of_storage b))
           else Some (p1 - off1))"

definition plus_assign :: "'a buffer \<Rightarrow> int \<Rightarrow> int \<Rightarrow> int option" where
  "plus_assign b p n =
     (if n = 0 then Some p else if n < 0 then minus_pos b p (- n) else plus_pos b p n)"

definition minus_assign :: "'a buffer \<Rightarrow> int \<Rightarrow> int \<Rightarrow> int option" where
  "minus_assign b p n =
     (if n = 0 then Some p else if n < 0 then plus_pos b p (- n) else minus_pos b p n)"

text \<open>\<^verbatim>\<open>operator-(left, right)\<close>, the distance of two iterators.\<close>

definition distance :: "'a buffer \<Rightarrow> int \<Rightarrow> int \<Rightarrow> int" where
  "distance b l r =
     (if start b \<le> finish b \<or> (l \<le> finish b \<and> r \<le> finish b) \<or> (l \<ge> start b \<and> r \<ge> start b)
      then l - r
      else if l \<le> r then (end_of_storage b - r) + (l - start_of_storage b)
      else (end_of_storage b - l) + (r - start_of_storage b))"

text \<open>\<^verbatim>\<open>CBuffIterator::operator[]\<close> and \<^verbatim>\<open>CBuffIterator::at\<close> have the same body. The offset
  arrives as a \<^verbatim>\<open>size_type\<close>, and the remainder is taken in \<^verbatim>\<open>size_type\<close>.\<close>

definition it_index :: "'a buffer \<Rightarrow> int \<Rightarrow> nat \<Rightarrow> 'a option" where
  "it_index b p k =
     (if size_buf b = 0 then None
      else let off = int (k mod size_buf b) in
        if p + off \<ge> end_of_storage b
        then deref b (start_of_storage b + (p + off - end_of_storage b))
        else deref b (p + off))"

definition it_at :: "'a buffer \<Rightarrow> int \<Rightarrow> nat \<Rightarrow> 'a option" where
  "it_at b p k =
     (if size_buf b = 0 then None
      else let off = int (k mod size_buf b) in
        if p + off \<ge> end_of_storage b
        then deref b (start_of_storage b + (p + off - end_of_storage b))
        else deref b (p + off))"

subsection \<open>Construction and element access\<close>

text \<open>The constructor from an initializer list.\<close>

definition from_list :: "'a list \<Rightarrow> 'a buffer" where
  "from_list xs =
     \<lparr>start = 0, finish = int (length xs), end_of_storage = int (length xs), storage = xs\<rparr>"

definition index_buf :: "'a buffer \<Rightarrow> nat \<Rightarrow> 'a option" where
  "index_buf b k = it_index b (begin_it b) k"

definition at_buf :: "'a buffer \<Rightarrow> nat \<Rightarrow> ('a, 'a buffer) outcome" where
  "at_buf b k = (case it_at b (begin_it b) k of None \<Rightarrow> Undefined | Some v \<Rightarrow> Returns v b)"

definition front_buf :: "'a buffer \<Rightarrow> 'a option" where
  "front_buf b = deref b (start b)"

definition back_buf :: "'a buffer \<Rightarrow> 'a option" where
  "back_buf b = deref b (decr b (end_it b))"

subsection \<open>Pushing and popping\<close>

definition push_back :: "'a \<Rightarrow> 'a buffer \<Rightarrow> 'a buffer option" where
  "push_back v b =
     (if finish b = end_of_storage b then
        do { b1 \<leftarrow> store b (begin_it b) v; Some (b1\<lparr>start := incr b1 (begin_it b1)\<rparr>) }
      else
        (let b1 = b\<lparr>finish := finish b + 1\<rparr> in store b1 (decr b1 (end_it b1)) v))"

definition push_front :: "'a \<Rightarrow> 'a buffer \<Rightarrow> 'a buffer option" where
  "push_front v b =
     (if finish b = end_of_storage b then
        do { b1 \<leftarrow> store b (decr b (end_it b)) v; Some (b1\<lparr>start := decr b1 (end_it b1)\<rparr>) }
      else
        (let b1 = (if start b \<noteq> start_of_storage b then b\<lparr>start := start b - 1\<rparr>
                   else b\<lparr>start := end_of_storage b - 1\<rparr>)
         in store b1 (begin_it b1) v))"

definition pop_back :: "'a buffer \<Rightarrow> 'a buffer option" where
  "pop_back b = (if \<not> empty_buf b then Some (b\<lparr>finish := decr b (end_it b)\<rparr>) else Some b)"

definition pop_front :: "'a buffer \<Rightarrow> 'a buffer option" where
  "pop_front b = (if \<not> empty_buf b then Some (b\<lparr>start := incr b (begin_it b)\<rparr>) else Some b)"

subsection \<open>Erasing one element\<close>

text \<open>The two shifting loops of \<^verbatim>\<open>erase\<close>. Nothing in the code bounds them, so they are
  partial: \<open>None\<close> also stands for a loop that never ends.\<close>

partial_function (option) erase_shift_up :: "'a buffer \<Rightarrow> int \<Rightarrow> int \<Rightarrow> 'a buffer option" where
  "erase_shift_up b cur pos =
     (if cur = pos then Some b
      else do { nxt \<leftarrow> plus_assign b cur 1;
                b1 \<leftarrow> swap_slots b cur nxt;
                erase_shift_up b1 (incr b1 cur) pos })"

partial_function (option) erase_shift_down :: "'a buffer \<Rightarrow> int \<Rightarrow> int \<Rightarrow> 'a buffer option" where
  "erase_shift_down b cur st_post =
     (if cur = st_post then Some b
      else do { prv \<leftarrow> minus_assign b cur 1;
                b1 \<leftarrow> swap_slots b cur prv;
                erase_shift_down b1 (decr b1 cur) st_post })"

declare erase_shift_up.simps [code]
declare erase_shift_down.simps [code]

definition erase :: "int \<Rightarrow> 'a buffer \<Rightarrow> 'a buffer option" where
  "erase pos b =
     (if distance b pos (begin_it b) \<ge> distance b (end_it b) pos then
        do { b1 \<leftarrow> erase_shift_up b (begin_it b) pos;
             Some (if finish b1 = end_of_storage b1 then b1\<lparr>finish := decr b1 (end_it b1)\<rparr>
                   else b1\<lparr>finish := finish b1 - 1\<rparr>) }
      else
        do { b1 \<leftarrow> erase_shift_down b pos (begin_it b);
             Some (if finish b1 = end_of_storage b1 then
                     (let b2 = b1\<lparr>finish := start b1\<rparr> in b2\<lparr>start := incr b2 (begin_it b2)\<rparr>)
                   else if start b1 \<noteq> end_of_storage b1 - 1 then
                     b1\<lparr>finish := start b1, start := start b1 + 1\<rparr>
                   else b1\<lparr>start := start_of_storage b1\<rparr>) })"

subsection \<open>Assigning a range\<close>

text \<open>The source range is a list: \<^verbatim>\<open>_last - _first\<close> is its length and \<^verbatim>\<open>_first += k\<close> drops
  \<open>k\<close> elements. One copying loop returns the buffer and what is left of the source.\<close>

fun assign_loop :: "'a buffer \<Rightarrow> int \<Rightarrow> int \<Rightarrow> 'a list \<Rightarrow> ('a buffer \<times> 'a list) option" where
  "assign_loop b cur end_pos [] = Some (b, [])"
| "assign_loop b cur end_pos (x # xs) =
     (if cur = end_pos then Some (b, x # xs)
      else do { b1 \<leftarrow> store b cur x; assign_loop b1 (incr b1 cur) end_pos xs })"

definition assign :: "'a list \<Rightarrow> 'a buffer \<Rightarrow> 'a buffer option" where
  "assign src b =
     (if \<not> empty_buf b then
        (if size_buf b = 0 then None
         else let int_part = length src div size_buf b in
           do { (b1, rest) \<leftarrow>
                  (if int_part \<noteq> 0
                   then assign_loop b (begin_it b) (end_it b) (drop ((int_part - 1) * size_buf b) src)
                   else Some (b, src));
                (b2, rest2) \<leftarrow> assign_loop b1 (begin_it b1) (end_it b) rest;
                Some b2 })
      else Some b)"

subsection \<open>Reallocation, \<^verbatim>\<open>reserve\<close> and \<^verbatim>\<open>resize\<close>\<close>

text \<open>\<^verbatim>\<open>std::__relocate_a(first, last, result, alloc)\<close> on buffer iterators: the library's loop
  \<^verbatim>\<open>for (; first != last; ++first, ++cur)\<close>, reading through the iterator and writing through
  a raw pointer into the new block. It returns the new block and the final \<^verbatim>\<open>cur\<close>.\<close>

partial_function (option) relocate ::
  "'a buffer \<Rightarrow> int \<Rightarrow> int \<Rightarrow> 'a list \<Rightarrow> nat \<Rightarrow> ('a list \<times> nat) option" where
  "relocate b first lst dst cur =
     (if first = lst then Some (dst, cur)
      else do { x \<leftarrow> deref b first;
                if cur < length dst then relocate b (incr b first) lst (dst[cur := x]) (Suc cur)
                else None })"

declare relocate.simps [code]

text \<open>\<^verbatim>\<open>std::__uninitialized_fill_n_a\<close> and \<^verbatim>\<open>std::__uninitialized_default_n_a\<close> through raw
  pointers into the new block: \<open>n\<close> slots from \<open>pos\<close> on are constructed.\<close>

definition fill_raw :: "'a list \<Rightarrow> nat \<Rightarrow> nat \<Rightarrow> 'a \<Rightarrow> 'a list option" where
  "fill_raw dst pos n v =
     (if pos + n \<le> length dst then Some (take pos dst @ replicate n v @ drop (pos + n) dst)
      else None)"

text \<open>The same two library functions through buffer iterators, as libstdc++ runs them for a
  trivial element type. \<^verbatim>\<open>std::fill_n(first, n, value)\<close> on a random-access iterator is
  \<^verbatim>\<open>if (n <= 0) return first; std::__fill_a(first, first + n, value); return first + n;\<close>,
  where \<^verbatim>\<open>__fill_a\<close> is the loop \<^verbatim>\<open>for (; first != last; ++first) *first = value\<close> and
  \<^verbatim>\<open>first + n\<close> is the iterator's own \<^verbatim>\<open>operator+\<close>, which reduces \<open>n\<close> modulo \<^verbatim>\<open>size()\<close>.\<close>

partial_function (option) fill_a :: "'a buffer \<Rightarrow> int \<Rightarrow> int \<Rightarrow> 'a \<Rightarrow> 'a buffer option" where
  "fill_a b first lst v =
     (if first = lst then Some b
      else do { b1 \<leftarrow> store b first v; fill_a b1 (incr b1 first) lst v })"

declare fill_a.simps [code]

definition fill_n :: "'a buffer \<Rightarrow> int \<Rightarrow> nat \<Rightarrow> 'a \<Rightarrow> ('a buffer \<times> int) option" where
  "fill_n b first n v =
     (if n = 0 then Some (b, first)
      else do { lst \<leftarrow> plus_assign b first (int n);
                b1 \<leftarrow> fill_a b first lst v;
                r \<leftarrow> plus_assign b1 first (int n);
                Some (b1, r) })"

text \<open>\<^verbatim>\<open>std::__uninitialized_fill_n_a(first, n, x, alloc)\<close> is \<^verbatim>\<open>std::fill_n(first, n, x)\<close>.
  \<^verbatim>\<open>std::__uninitialized_default_n_a(first, n, alloc)\<close> value-initialises \<^verbatim>\<open>*first\<close>, steps
  once with \<^verbatim>\<open>++\<close> and fills the remaining \<open>n - 1\<close> elements with \<^verbatim>\<open>std::fill_n\<close>.\<close>

definition uninitialized_fill_n :: "'a buffer \<Rightarrow> int \<Rightarrow> nat \<Rightarrow> 'a \<Rightarrow> ('a buffer \<times> int) option" where
  "uninitialized_fill_n b first n v = fill_n b first n v"

definition uninitialized_default_n ::
  "'a traits \<Rightarrow> 'a buffer \<Rightarrow> int \<Rightarrow> nat \<Rightarrow> ('a buffer \<times> int) option" where
  "uninitialized_default_n E b first n =
     (if n > 0 then
        do { b1 \<leftarrow> store b first (default_value E);
             fill_n b1 (incr b1 first) (n - 1) (default_value E) }
      else Some (b, first))"

definition erase_ending :: "nat \<Rightarrow> 'a buffer \<Rightarrow> 'a buffer option" where
  "erase_ending n b =
     do { new_ending \<leftarrow> minus_assign b (end_it b) (int n); Some (b\<lparr>finish := new_ending\<rparr>) }"

definition finished :: "'a buffer option \<Rightarrow> (unit, 'a buffer) outcome" where
  "finished r = (case r of None \<Rightarrow> Undefined | Some b \<Rightarrow> Returns () b)"

text \<open>In both reallocation functions \<^verbatim>\<open>alloc.allocate\<close> is the first statement of either
  branch and stands outside the \<^verbatim>\<open>try\<close> block: its \<^verbatim>\<open>std::bad_alloc\<close> leaves the function
  before anything is changed.\<close>

definition reallocate_storage_default ::
  "'a traits \<Rightarrow> nat \<Rightarrow> 'a buffer \<Rightarrow> (unit, 'a buffer) outcome" where
  "reallocate_storage_default E new_size b =
     (if new_size \<ge> size_buf b then
        (case allocate E new_size of
           None \<Rightarrow> Throws bad_alloc b
         | Some new_start \<Rightarrow>
             finished
               (do { blk \<leftarrow> fill_raw new_start (size_buf b) (new_size - size_buf b) (default_value E);
                     (blk1, fin) \<leftarrow> relocate b (begin_it b) (end_it b) blk 0;
                     Some \<lparr>start = 0, finish = int fin, end_of_storage = int new_size,
                           storage = blk1\<rparr> }))
      else
        (case allocate E new_size of
           None \<Rightarrow> Throws bad_alloc b
         | Some new_start \<Rightarrow>
             finished
               (do { lst \<leftarrow> plus_assign b (begin_it b) (int new_size);
                     (blk1, fin) \<leftarrow> relocate b (begin_it b) lst new_start 0;
                     Some \<lparr>start = 0, finish = int fin, end_of_storage = int new_size,
                           storage = blk1\<rparr> })))"

definition reallocate_storage_filled ::
  "'a traits \<Rightarrow> nat \<Rightarrow> 'a \<Rightarrow> 'a buffer \<Rightarrow> (unit, 'a buffer) outcome" where
  "reallocate_storage_filled E new_size v b =
     (if new_size \<ge> size_buf b then
        (case allocate E new_size of
           None \<Rightarrow> Throws bad_alloc b
         | Some new_start \<Rightarrow>
             finished
               (do { blk \<leftarrow> fill_raw new_start (size_buf b) (new_size - size_buf b) v;
                     (blk1, fin) \<leftarrow> relocate b (begin_it b) (end_it b) blk 0;
                     Some \<lparr>start = 0, finish = int new_size, end_of_storage = int new_size,
                           storage = blk1\<rparr> }))
      else
        (case allocate E new_size of
           None \<Rightarrow> Throws bad_alloc b
         | Some new_start \<Rightarrow>
             finished
               (do { lst \<leftarrow> plus_assign b (begin_it b) (int new_size);
                     (blk1, fin) \<leftarrow> relocate b (begin_it b) lst new_start 0;
                     Some \<lparr>start = 0, finish = int fin, end_of_storage = int new_size,
                           storage = blk1\<rparr> })))"

definition resize :: "'a traits \<Rightarrow> nat \<Rightarrow> 'a buffer \<Rightarrow> (unit, 'a buffer) outcome" where
  "resize E new_size b =
     (if new_size > max_size E then Throws length_error b
      else if new_size > size_buf b then
        (if new_size > capacity b then reallocate_storage_default E new_size b
         else finished
           (do { (b1, fin) \<leftarrow> uninitialized_default_n E b (end_it b) (new_size - size_buf b);
                 Some (b1\<lparr>finish := fin\<rparr>) }))
      else if new_size \<noteq> 0 then finished (erase_ending (size_buf b - new_size) b)
      else Returns () b)"

definition resize_fill :: "'a traits \<Rightarrow> nat \<Rightarrow> 'a \<Rightarrow> 'a buffer \<Rightarrow> (unit, 'a buffer) outcome" where
  "resize_fill E new_size v b =
     (if new_size > max_size E then Throws length_error b
      else if new_size > size_buf b then
        (if new_size > capacity b then reallocate_storage_filled E new_size v b
         else finished
           (do { (b1, fin) \<leftarrow> uninitialized_fill_n b (end_it b) (new_size - size_buf b) v;
                 Some (b1\<lparr>finish := fin\<rparr>) }))
      else finished (erase_ending (size_buf b - new_size) b))"

definition reserve :: "'a traits \<Rightarrow> nat \<Rightarrow> 'a buffer \<Rightarrow> (unit, 'a buffer) outcome" where
  "reserve E n b =
     (if n > max_size E then Throws length_error b
      else if n > capacity b then reallocate_storage_default E n b
      else Returns () b)"

definition shrink_to_fit :: "'a traits \<Rightarrow> 'a buffer \<Rightarrow> (unit, 'a buffer) outcome" where
  "shrink_to_fit E b = reallocate_storage_default E (size_buf b) b"

section \<open>The window as a sequence\<close>

text \<open>The representation invariant of the data model: the block has \<open>end_of_storage\<close> slots
  (fewer than \<open>2 ^ 63\<close>, the range of \<^verbatim>\<open>ptrdiff_t\<close>), \<open>finish\<close> lies in
  \<open>[start_of_storage, end_of_storage]\<close> and \<open>start\<close> addresses a slot of the block (or the
  block is empty).\<close>

definition valid :: "'a buffer \<Rightarrow> bool" where
  "valid b \<longleftrightarrow>
     int (length (storage b)) = end_of_storage b \<and> end_of_storage b < 2 ^ 63 \<and>
     0 \<le> start b \<and> 0 \<le> finish b \<and> finish b \<le> end_of_storage b \<and>
     (start b < end_of_storage b \<or> (start b = 0 \<and> end_of_storage b = 0))"

text \<open>The logical content, in the words of the specification's data model: a full window
  (\<open>finish = end_of_storage\<close>) runs from \<open>start\<close> to the end of the block and on from its
  beginning up to \<open>start\<close>; a contiguous window runs from \<open>start\<close> to \<open>finish\<close>; a wrapped
  one from \<open>start\<close> to the end of the block and on from its beginning up to \<open>finish\<close>.\<close>

definition logical_contents :: "'a buffer \<Rightarrow> 'a list" where
  "logical_contents b =
     (if finish b = end_of_storage b
        then drop (nat (start b)) (storage b) @ take (nat (start b)) (storage b)
      else if start b \<le> finish b
        then take (nat (finish b - start b)) (drop (nat (start b)) (storage b))
      else drop (nat (start b)) (storage b) @ take (nat (finish b)) (storage b))"

text \<open>The slot of the \<open>k\<close>-th element of the window, and the pointer an iterator holds after
  \<open>k\<close> increments from \<^verbatim>\<open>begin()\<close>.\<close>

definition slot :: "'a buffer \<Rightarrow> nat \<Rightarrow> int" where
  "slot b k =
     (if start b + int k \<ge> end_of_storage b then start b + int k - end_of_storage b
      else start b + int k)"

definition cursor :: "'a buffer \<Rightarrow> nat \<Rightarrow> int" where
  "cursor b k = (if k = size_buf b then finish b else slot b k)"

text \<open>Two buffers with the same markers over blocks of the same length.\<close>

definition same_window :: "'a buffer \<Rightarrow> 'a buffer \<Rightarrow> bool" where
  "same_window b b' \<longleftrightarrow>
     start b' = start b \<and> finish b' = finish b \<and> end_of_storage b' = end_of_storage b \<and>
     length (storage b') = length (storage b)"

text \<open>The parameters of \<^verbatim>\<open>CircularBuffer<int>\<close> with \<^verbatim>\<open>std::allocator\<close>, for the concrete runs:
  four-byte elements, value-initialised to 0, on a machine that can hand out blocks of up to
  \<open>2 ^ 30\<close> elements.\<close>

definition int_traits :: "int traits" where
  "int_traits =
     \<lparr>sizeof_elem = 4, alloc_max_size = (2 ^ 63 - 1) div 4,
      alloc_succeeds = (\<lambda>n. n \<le> 2 ^ 30), raw_slot = (\<lambda>i. 0),
      default_value = 0\<rparr>"

section \<open>Basic facts\<close>

lemma to_size_type_id: "0 \<le> x \<Longrightarrow> x < 2 ^ 63 \<Longrightarrow> to_size_type x = nat x"
  by (simp add: to_size_type_def)

lemma size_valid:
  assumes "valid b"
  shows "int (size_buf b) =
     (if finish b = end_of_storage b then end_of_storage b
      else if start b \<le> finish b then finish b - start b
      else finish b + end_of_storage b - start b)"
  using assms unfolding valid_def size_buf_def start_of_storage_def
  by (auto simp: to_size_type_id)

lemma capacity_valid: "valid b \<Longrightarrow> int (capacity b) = end_of_storage b"
  unfolding valid_def capacity_def start_of_storage_def by (auto simp: to_size_type_id)

lemma size_le_capacity: "valid b \<Longrightarrow> size_buf b \<le> capacity b"
  using size_valid [of b] capacity_valid [of b] unfolding valid_def by (auto split: if_splits)

lemma capacity_zero_size_zero: "valid b \<Longrightarrow> capacity b = 0 \<Longrightarrow> size_buf b = 0"
  using size_le_capacity [of b] by simp

lemma valid_length: "valid b \<Longrightarrow> nat (end_of_storage b) = length (storage b)"
  unfolding valid_def by auto

lemma length_contents: "valid b \<Longrightarrow> length (logical_contents b) = size_buf b"
  using size_valid [of b] unfolding valid_def logical_contents_def by (auto split: if_splits)

lemma slot_range: "valid b \<Longrightarrow> k < size_buf b \<Longrightarrow> 0 \<le> slot b k \<and> slot b k < end_of_storage b"
  using size_valid [of b] unfolding valid_def slot_def by (auto split: if_splits)

lemma contents_nth:
  "valid b \<Longrightarrow> k < size_buf b \<Longrightarrow> logical_contents b ! k = storage b ! nat (slot b k)"
  using size_valid [of b] valid_length [of b] unfolding valid_def logical_contents_def slot_def
  by (auto simp: nth_append nat_add_distrib nat_diff_distrib add.commute split: if_splits)

lemma cursor_0: "valid b \<Longrightarrow> cursor b 0 = start b"
  using size_valid [of b] unfolding valid_def cursor_def slot_def by (auto split: if_splits)

lemma cursor_size: "cursor b (size_buf b) = finish b"
  by (simp add: cursor_def)

lemma cursor_neq_finish: "valid b \<Longrightarrow> k < size_buf b \<Longrightarrow> cursor b k \<noteq> finish b"
  using size_valid [of b] unfolding valid_def cursor_def slot_def by (auto split: if_splits)

lemma incr_cursor: "valid b \<Longrightarrow> k < size_buf b \<Longrightarrow> incr b (cursor b k) = cursor b (Suc k)"
  using size_valid [of b] unfolding valid_def cursor_def slot_def incr_def start_of_storage_def
  by (auto split: if_splits)

lemma deref_cursor:
  "valid b \<Longrightarrow> k < size_buf b \<Longrightarrow> deref b (cursor b k) = Some (logical_contents b ! k)"
  using slot_range [of b k] valid_length [of b] contents_nth [of b k]
  by (auto simp: deref_def cursor_def)

subsection \<open>Reading and writing through the window\<close>

lemma valid_from_list: "length xs < 2 ^ 63 \<Longrightarrow> valid (from_list xs)"
  unfolding valid_def from_list_def by (cases xs) auto

lemma contents_from_list: "logical_contents (from_list xs) = xs"
  by (simp add: logical_contents_def from_list_def)

lemma at_buf_valid:
  assumes "valid b" "size_buf b \<noteq> 0"
  shows "at_buf b k = Returns (logical_contents b ! (k mod size_buf b)) b"
proof -
  let ?j = "k mod size_buf b"
  have j: "?j < size_buf b" using assms(2) by simp
  have "it_at b (begin_it b) k = deref b (slot b ?j)"
    using assms(2) by (simp add: it_at_def begin_it_def slot_def start_of_storage_def Let_def)
  also have "\<dots> = Some (logical_contents b ! ?j)"
    using deref_cursor [OF assms(1) j] j by (simp add: cursor_def)
  finally show ?thesis by (simp add: at_buf_def)
qed


text \<open>The abstraction agrees with what \<^verbatim>\<open>operator[]\<close> observes.\<close>

lemma index_buf_valid:
  assumes "valid b" "k < size_buf b"
  shows "index_buf b k = Some (logical_contents b ! k)"
proof -
  have "it_index b (begin_it b) k = deref b (slot b k)"
    using assms(2) by (simp add: it_index_def begin_it_def slot_def start_of_storage_def Let_def)
  also have "\<dots> = Some (logical_contents b ! k)"
    using deref_cursor [OF assms] assms(2) by (simp add: cursor_def)
  finally show ?thesis by (simp add: index_buf_def)
qed

lemma same_window_refl: "same_window b b" by (simp add: same_window_def)
lemma same_window_trans: "same_window a b \<Longrightarrow> same_window b c \<Longrightarrow> same_window a c" by (simp add: same_window_def)

lemma same_window_valid: "same_window b b' \<Longrightarrow> valid b \<Longrightarrow> valid b'"
  by (simp add: same_window_def valid_def)
lemma same_window_size: "same_window b b' \<Longrightarrow> size_buf b' = size_buf b"
  by (simp add: same_window_def size_buf_def start_of_storage_def)
lemma same_window_capacity: "same_window b b' \<Longrightarrow> capacity b' = capacity b"
  by (simp add: same_window_def capacity_def start_of_storage_def)
lemma same_window_cursor: "same_window b b' \<Longrightarrow> cursor b' k = cursor b k"
  by (simp add: same_window_def cursor_def slot_def size_buf_def start_of_storage_def)
lemma same_window_incr: "same_window b b' \<Longrightarrow> incr b' p = incr b p"
  by (simp add: same_window_def incr_def start_of_storage_def)

lemma slot_inj: "valid b \<Longrightarrow> k < size_buf b \<Longrightarrow> j < size_buf b \<Longrightarrow> slot b k = slot b j \<Longrightarrow> k = j"
  using size_valid [of b] unfolding valid_def slot_def by (auto split: if_splits)

lemma store_cursor:
  assumes "valid b" "k < size_buf b"
  shows "\<exists>b'. store b (cursor b k) v = Some b' \<and> same_window b b' \<and>
           logical_contents b' = (logical_contents b)[k := v]"
proof -
  let ?b' = "b\<lparr>storage := (storage b)[nat (slot b k) := v]\<rparr>"
  have r: "0 \<le> slot b k" "slot b k < end_of_storage b" using slot_range [OF assms] by auto
  have st: "store b (cursor b k) v = Some ?b'"
    using r valid_length [OF assms(1)] assms(2) by (simp add: store_def cursor_def)
  have sw: "same_window b ?b'" by (simp add: same_window_def)
  have v': "valid ?b'" using same_window_valid [OF sw assms(1)] .
  have sz: "size_buf ?b' = size_buf b" using same_window_size [OF sw] .
  have "logical_contents ?b' = (logical_contents b)[k := v]"
  proof (rule nth_equalityI)
    show "length (logical_contents ?b') = length ((logical_contents b)[k := v])"
      by (simp add: length_contents [OF v'] length_contents [OF assms(1)] sz)
  next
    fix i assume "i < length (logical_contents ?b')"
    then have i: "i < size_buf b" by (simp add: length_contents [OF v'] sz)
    have sl: "slot ?b' i = slot b i" by (simp add: slot_def)
    have ri: "0 \<le> slot b i" "slot b i < end_of_storage b" using slot_range [OF assms(1) i] by auto
    have "logical_contents ?b' ! i = (storage b)[nat (slot b k) := v] ! nat (slot b i)"
      using contents_nth [OF v', of i] i sz sl by simp
    also have "\<dots> = (if i = k then v else storage b ! nat (slot b i))"
      using slot_inj [OF assms(1) i assms(2)] r ri valid_length [OF assms(1)]
      by (auto simp: nth_list_update)
    also have "\<dots> = (logical_contents b)[k := v] ! i"
      using i assms(2) contents_nth [OF assms(1) i] length_contents [OF assms(1)]
      by (auto simp: nth_list_update)
    finally show "logical_contents ?b' ! i = (logical_contents b)[k := v] ! i" .
  qed
  with st sw show ?thesis by blast
qed

subsection \<open>The copying loop of \<^verbatim>\<open>assign\<close>\<close>

lemma assign_loop_window:
  assumes "valid b" "k \<le> size_buf b"
  shows "\<exists>b'. assign_loop b (cursor b k) (finish b) xs = Some (b', drop (size_buf b - k) xs) \<and>
           same_window b b' \<and>
           logical_contents b' =
             take k (logical_contents b) @ take (size_buf b - k) xs @
             drop (k + length xs) (logical_contents b)"
  using assms
proof (induction xs arbitrary: b k)
  case Nil
  then show ?case by (simp add: same_window_refl)
next
  case (Cons x xs)
  show ?case
  proof (cases "k = size_buf b")
    case True
    then show ?thesis
      using Cons.prems by (simp add: cursor_size same_window_refl length_contents)
  next
    case False
    then have k: "k < size_buf b" using Cons.prems by simp
    obtain b1 where b1: "store b (cursor b k) x = Some b1" "same_window b b1"
        "logical_contents b1 = (logical_contents b)[k := x]"
      using store_cursor [OF Cons.prems(1) k] by blast
    have v1: "valid b1" using same_window_valid [OF b1(2) Cons.prems(1)] .
    have s1: "size_buf b1 = size_buf b" using same_window_size [OF b1(2)] .
    have f1: "finish b1 = finish b" using b1(2) by (simp add: same_window_def)
    have nxt: "incr b1 (cursor b k) = cursor b1 (Suc k)"
      using incr_cursor [OF v1, of k] k s1 same_window_cursor [OF b1(2)] by simp
    have "Suc k \<le> size_buf b1" using k s1 by simp
    from Cons.IH [OF v1 this] obtain b' where
      b': "assign_loop b1 (cursor b1 (Suc k)) (finish b1) xs = Some (b', drop (size_buf b1 - Suc k) xs)"
        "same_window b1 b'"
        "logical_contents b' = take (Suc k) (logical_contents b1) @ take (size_buf b1 - Suc k) xs @
             drop (Suc k + length xs) (logical_contents b1)"
      by blast
    have run: "assign_loop b (cursor b k) (finish b) (x # xs) = Some (b', drop (size_buf b - k) (x # xs))"
      using cursor_neq_finish [OF Cons.prems(1) k] b1(1) nxt b'(1) s1 f1 k
      by (simp add: Suc_diff_Suc drop_Cons')
    have len: "length (logical_contents b) = size_buf b" using length_contents [OF Cons.prems(1)] .
    have "logical_contents b' = take k (logical_contents b) @ take (size_buf b - k) (x # xs) @
             drop (k + length (x # xs)) (logical_contents b)"
      using b'(3) b1(3) s1 k len
      by (simp add: take_Suc_conv_app_nth take_Cons' drop_Cons')
    with run same_window_trans [OF b1(2) b'(2)] show ?thesis by blast
  qed
qed

lemma nonempty_size: "valid b \<Longrightarrow> \<not> empty_buf b \<Longrightarrow> 0 < size_buf b"
  using size_valid [of b] unfolding valid_def empty_buf_def by (auto split: if_splits)

text \<open>Under the invariant the two readings of "not empty" agree.\<close>

lemma empty_iff_size_zero: "valid b \<Longrightarrow> empty_buf b \<longleftrightarrow> size_buf b = 0"
  using size_valid [of b] unfolding valid_def empty_buf_def by (auto split: if_splits)

lemma assign_valid:
  assumes v: "valid b" and ne: "\<not> empty_buf b" and long: "size_buf b \<le> length src"
  shows "\<exists>b'. assign src b = Some b' \<and> same_window b b' \<and>
           logical_contents b' =
             drop (length src - length src mod size_buf b) src @
             take (size_buf b - length src mod size_buf b) (drop (length src - size_buf b) src)"
proof -
  let ?s = "size_buf b" and ?n = "length src"
  let ?ip = "?n div ?s" and ?r = "?n mod ?s"
  have s0: "0 < ?s" using nonempty_size [OF v ne] .
  have ip: "?ip \<noteq> 0" using s0 long by (simp add: div_greater_zero_iff)
  let ?xs = "drop ((?ip - 1) * ?s) src"
  have nsplit: "?n = ?ip * ?s + ?r" by simp
  have ip1: "(?ip - 1) * ?s + ?s = ?ip * ?s" using ip by (cases ?ip) auto 
  have e1: "?ip * ?s = ?n - ?r" by (simp add: minus_mod_eq_div_mult)
  have "?s \<le> ?ip * ?s" using ip by simp
  then have r_le: "?s + ?r \<le> ?n" using e1 mod_le_divisor [OF s0, of ?n] mod_less_eq_dividend [of ?n ?s] by linarith
  have e0: "(?ip - 1) * ?s = ?n - ?r - ?s" using ip1 e1 by linarith
  have r_lt: "?r < ?s" using s0 by simp
  have lenxs: "length ?xs = ?s + ?r" unfolding length_drop e0 using long r_lt r_le by linarith
  obtain b1 where b1: "assign_loop b (cursor b 0) (finish b) ?xs = Some (b1, drop ?s ?xs)"
     "same_window b b1"
     "logical_contents b1 = take ?s ?xs @ drop (length ?xs) (logical_contents b)"
    using assign_loop_window [OF v, of 0 ?xs] by auto
  have c1: "logical_contents b1 = take ?s ?xs"
    using b1(3) lenxs length_contents [OF v] by simp
  have v1: "valid b1" using same_window_valid [OF b1(2) v] .
  have s1: "size_buf b1 = ?s" using same_window_size [OF b1(2)] .
  have f1: "finish b1 = finish b" using b1(2) by (simp add: same_window_def)
  let ?rest = "drop ?s ?xs"
  have rest: "?rest = drop (?ip * ?s) src" using ip1 by (simp add: add.commute)
  have lenrest: "length ?rest = ?r" using lenxs by simp
  obtain b2 where b2: "assign_loop b1 (cursor b1 0) (finish b1) ?rest = Some (b2, drop ?s ?rest)"
     "same_window b1 b2"
     "logical_contents b2 = take ?s ?rest @ drop (length ?rest) (logical_contents b1)"
    using assign_loop_window [OF v1, of 0 ?rest] s1 by auto
  have c2: "logical_contents b2 = ?rest @ drop ?r (take ?s ?xs)"
    using b2(3) c1 lenrest r_lt by simp
  have run: "assign src b = Some b2"
    using ne s0 ip b1(1) b2(1) f1 cursor_0 [OF v] cursor_0 [OF v1]
    by (simp add: assign_def begin_it_def end_it_def Let_def)
  have "drop ?r (take ?s ?xs) = take (?s - ?r) (drop ?r ?xs)"
    by (simp add: drop_take)
  also have "drop ?r ?xs = drop (?n - ?s) src"
  proof -
    have "?r + (?ip - 1) * ?s = ?n - ?s" unfolding e0 using long r_lt r_le by linarith
    then show ?thesis unfolding drop_drop by simp
  qed
  finally have "logical_contents b2 = drop (?n - ?r) src @ take (?s - ?r) (drop (?n - ?s) src)"
    using c2 rest e1 by simp
  with run same_window_trans [OF b1(2) b2(2)] show ?thesis by blast
qed

subsection \<open>Relocation into a new block\<close>

lemma relocate_window:
  assumes "valid b" "k \<le> size_buf b" "cur + (size_buf b - k) \<le> length dst"
  shows "relocate b (cursor b k) (finish b) dst cur =
           Some (take cur dst @ drop k (logical_contents b) @ drop (cur + (size_buf b - k)) dst,
                 cur + (size_buf b - k))"
  using assms
proof (induction "size_buf b - k" arbitrary: k cur dst)
  case 0
  then have k: "k = size_buf b" by simp
  show ?case
    by (subst relocate.simps) (simp add: k cursor_size length_contents [OF \<open>valid b\<close>])
next
  case (Suc m)
  then have k: "k < size_buf b" by simp
  have m: "m = size_buf b - Suc k" using Suc.hyps(2) by simp
  have cur: "cur < length dst" using Suc.prems(3) k by simp
  let ?x = "logical_contents b ! k"
  have step: "relocate b (cursor b k) (finish b) dst cur =
        relocate b (cursor b (Suc k)) (finish b) (dst[cur := ?x]) (Suc cur)"
    by (subst relocate.simps)
       (simp add: cursor_neq_finish [OF Suc.prems(1) k] deref_cursor [OF Suc.prems(1) k] cur
          incr_cursor [OF Suc.prems(1) k])
  have "Suc k \<le> size_buf b" using k by simp
  moreover have "Suc cur + (size_buf b - Suc k) \<le> length (dst[cur := ?x])"
    using Suc.prems(3) k by simp
  ultimately have ih: "relocate b (cursor b (Suc k)) (finish b) (dst[cur := ?x]) (Suc cur) =
       Some (take (Suc cur) (dst[cur := ?x]) @ drop (Suc k) (logical_contents b) @
               drop (Suc cur + (size_buf b - Suc k)) (dst[cur := ?x]),
             Suc cur + (size_buf b - Suc k))"
    using Suc.hyps(1) [OF m Suc.prems(1)] by blast
  have len: "length (logical_contents b) = size_buf b" using length_contents [OF Suc.prems(1)] .
  have t: "take (Suc cur) (dst[cur := ?x]) = take cur dst @ [?x]"
    using cur by (simp add: take_Suc_conv_app_nth)
  have d: "drop k (logical_contents b) = ?x # drop (Suc k) (logical_contents b)"
    using k len by (simp add: Cons_nth_drop_Suc)
  have a: "Suc cur + (size_buf b - Suc k) = cur + (size_buf b - k)" using k by simp
  have u: "drop (cur + (size_buf b - k)) (dst[cur := ?x]) = drop (cur + (size_buf b - k)) dst"
    using k by simp
  show ?case
    unfolding step ih t d a u by simp
qed

lemma max_size_bound: "max_size E < 2 ^ 63"
proof -
  have "(2 ^ 63 - 1) div sizeof_elem E \<le> (2 ^ 63 - 1 :: nat)" by (rule div_le_dividend)
  then have "max_size E \<le> 2 ^ 63 - 1" unfolding max_size_def by (rule min.coboundedI1)
  then show ?thesis by simp
qed

lemma allocate_fails: "\<not> alloc_succeeds E n \<Longrightarrow> allocate E n = None"
  by (simp add: allocate_def)

lemma relocate_into_block:
  assumes v: "valid b" and n: "size_buf b \<le> n"
  shows "relocate b (begin_it b) (end_it b)
           (take (size_buf b) (map (raw_slot E) [0..<n]) @ replicate (n - size_buf b) x) 0 =
         Some (logical_contents b @ replicate (n - size_buf b) x, size_buf b)"
proof -
  let ?blk = "take (size_buf b) (map (raw_slot E) [0..<n]) @ replicate (n - size_buf b) x"
  have lb: "length ?blk = n" using n by simp
  have "relocate b (cursor b 0) (finish b) ?blk 0 =
          Some (take 0 ?blk @ drop 0 (logical_contents b) @ drop (0 + (size_buf b - 0)) ?blk,
                0 + (size_buf b - 0))"
    by (rule relocate_window [OF v]) (use n lb in simp_all)
  then show ?thesis
    using n by (simp add: cursor_0 [OF v] begin_it_def end_it_def)
qed

lemma reallocate_grow:
  assumes v: "valid b" and n: "size_buf b \<le> n" and a: "alloc_succeeds E n"
  shows "reallocate_storage_default E n b =
           Returns () \<lparr>start = 0, finish = int (size_buf b), end_of_storage = int n,
                  storage = logical_contents b @ replicate (n - size_buf b) (default_value E)\<rparr>"
proof -
  let ?raw = "map (raw_slot E) [0..<n]"
  let ?blk = "take (size_buf b) ?raw @ replicate (n - size_buf b) (default_value E)"
  have al: "allocate E n = Some ?raw" using a by (simp add: allocate_def)
  have f: "fill_raw ?raw (size_buf b) (n - size_buf b) (default_value E) = Some ?blk"
    using n by (simp add: fill_raw_def)
  show ?thesis
    unfolding reallocate_storage_default_def
    using n al f relocate_into_block [OF v n, of E "default_value E"] by (simp add: finished_def)
qed

lemma reallocate_filled_grow:
  assumes v: "valid b" and n: "size_buf b \<le> n" and a: "alloc_succeeds E n"
  shows "reallocate_storage_filled E n x b =
           Returns () \<lparr>start = 0, finish = int n, end_of_storage = int n,
                  storage = logical_contents b @ replicate (n - size_buf b) x\<rparr>"
proof -
  let ?raw = "map (raw_slot E) [0..<n]"
  let ?blk = "take (size_buf b) ?raw @ replicate (n - size_buf b) x"
  have al: "allocate E n = Some ?raw" using a by (simp add: allocate_def)
  have f: "fill_raw ?raw (size_buf b) (n - size_buf b) x = Some ?blk"
    using n by (simp add: fill_raw_def)
  show ?thesis
    unfolding reallocate_storage_filled_def
    using n al f relocate_into_block [OF v n, of E x] by (simp add: finished_def)
qed

lemma grown_buffer:
  assumes v: "valid b" and sn: "size_buf b < n" and m: "n < 2 ^ 63"
    and b': "b' = \<lparr>start = 0, finish = int (size_buf b), end_of_storage = int n,
                  storage = logical_contents b @ replicate (n - size_buf b) d\<rparr>"
  shows "valid b' \<and> size_buf b' = size_buf b \<and> capacity b' = n \<and>
         logical_contents b' = logical_contents b"
proof -
  have len: "length (logical_contents b) = size_buf b" using length_contents [OF v] .
  have v': "valid b'" using sn m len unfolding valid_def b' by simp
  have "size_buf b' = size_buf b"
    using size_valid [OF v'] sn unfolding b' by simp
  moreover have "capacity b' = n" using capacity_valid [OF v'] unfolding b' by simp
  moreover have "logical_contents b' = logical_contents b"
    using sn len by (simp add: logical_contents_def b')
  ultimately show ?thesis using v' by simp
qed

subsection \<open>Shrinking from the back\<close>

lemma prefix_contents:
  assumes v: "valid b" and v': "valid b'"
    and same: "start b' = start b" "end_of_storage b' = end_of_storage b" "storage b' = storage b"
    and le: "size_buf b' \<le> size_buf b"
  shows "logical_contents b' = take (size_buf b') (logical_contents b)"
proof (rule nth_equalityI)
  show "length (logical_contents b') = length (take (size_buf b') (logical_contents b))"
    using le by (simp add: length_contents [OF v] length_contents [OF v'])
next
  fix i assume "i < length (logical_contents b')"
  then have i: "i < size_buf b'" by (simp add: length_contents [OF v'])
  then have i2: "i < size_buf b" using le by simp
  have "slot b' i = slot b i" using same by (simp add: slot_def)
  then show "logical_contents b' ! i = take (size_buf b') (logical_contents b) ! i"
    using contents_nth [OF v' i] contents_nth [OF v i2] same i by simp
qed



subsection \<open>Where pushing and popping do what they should\<close>

lemma contents_eqI:
  assumes "valid b" and "size_buf b = length xs"
    and "\<And>k. k < length xs \<Longrightarrow> storage b ! nat (slot b k) = xs ! k"
  shows "logical_contents b = xs"
proof (rule nth_equalityI)
  show "length (logical_contents b) = length xs"
    using assms(2) by (simp add: length_contents [OF assms(1)])
next
  fix i assume "i < length (logical_contents b)"
  then have "i < length xs" using assms(2) by (simp add: length_contents [OF assms(1)])
  then show "logical_contents b ! i = xs ! i"
    using contents_nth [OF assms(1), of i] assms(2,3) by simp
qed

lemma pop_front_not_full:
  assumes v: "valid b" and ne: "\<not> empty_buf b" and nf: "finish b \<noteq> end_of_storage b"
  shows "\<exists>b'. pop_front b = Some b' \<and> valid b' \<and> size_buf b' = size_buf b - 1 \<and>
           capacity b' = capacity b \<and> logical_contents b' = tl (logical_contents b)"
proof -
  let ?b' = "b\<lparr>start := incr b (begin_it b)\<rparr>"
  have sz: "int (size_buf b) =
     (if start b \<le> finish b then finish b - start b
      else finish b + end_of_storage b - start b)" using size_valid [OF v] nf by simp
  have v': "valid ?b'"
    using v ne nf unfolding valid_def empty_buf_def incr_def begin_it_def start_of_storage_def
    by (auto split: if_splits)
  have "int (size_buf ?b') = int (size_buf b) - 1"
    using size_valid [OF v'] v ne nf sz
    unfolding valid_def empty_buf_def incr_def begin_it_def start_of_storage_def
    by (auto split: if_splits)
  then have s': "size_buf ?b' = size_buf b - 1" by linarith
  have s0: "0 < size_buf b" using nonempty_size [OF v ne] .
  have len: "length (logical_contents b) = size_buf b" using length_contents [OF v] .
  have "logical_contents ?b' = tl (logical_contents b)"
  proof (rule contents_eqI [OF v'])
    show "size_buf ?b' = length (tl (logical_contents b))" using s' len by simp
  next
    fix k assume "k < length (tl (logical_contents b))"
    then have k: "Suc k < size_buf b" using len by simp
    have "slot ?b' k = slot b (Suc k)"
      using v ne nf sz k
      unfolding valid_def empty_buf_def incr_def begin_it_def start_of_storage_def slot_def
      by (auto split: if_splits)
    then show "storage ?b' ! nat (slot ?b' k) = tl (logical_contents b) ! k"
      using contents_nth [OF v k] k len by (simp add: nth_tl)
  qed
  moreover have "capacity ?b' = capacity b" by (simp add: capacity_def start_of_storage_def)
  ultimately show ?thesis using ne v' s' by (simp add: pop_front_def)
qed

lemma push_back_full:
  assumes v: "valid b" and full: "finish b = end_of_storage b" and c: "1 < end_of_storage b"
  shows "\<exists>b'. push_back x b = Some b' \<and> valid b' \<and> size_buf b' = size_buf b \<and>
           capacity b' = capacity b \<and> logical_contents b' = tl (logical_contents b) @ [x]"
proof -
  let ?b1 = "b\<lparr>storage := (storage b)[nat (start b) := x]\<rparr>"
  let ?b' = "?b1\<lparr>start := incr ?b1 (begin_it ?b1)\<rparr>"
  have st: "0 \<le> start b" "start b < end_of_storage b" "nat (start b) < length (storage b)"
    using v c unfolding valid_def by auto
  have run: "push_back x b = Some ?b'"
    using full st by (simp add: push_back_def store_def begin_it_def)
  have v': "valid ?b'"
    using v full c unfolding valid_def incr_def begin_it_def start_of_storage_def
    by (auto split: if_splits)
  have sz: "int (size_buf b) = end_of_storage b" using size_valid [OF v] full by simp
  have sz': "int (size_buf ?b') = end_of_storage b" using size_valid [OF v'] full by simp
  have s': "size_buf ?b' = size_buf b" using sz sz' by linarith
  have len: "length (logical_contents b) = size_buf b" using length_contents [OF v] .
  have s0: "0 < size_buf b" using sz c by linarith
  have "logical_contents ?b' = tl (logical_contents b) @ [x]"
  proof (rule contents_eqI [OF v'])
    show "size_buf ?b' = length (tl (logical_contents b) @ [x])" using s' len s0 by simp
  next
    fix k assume "k < length (tl (logical_contents b) @ [x])"
    then have k: "k < size_buf b" using len s0 by simp
    show "storage ?b' ! nat (slot ?b' k) = (tl (logical_contents b) @ [x]) ! k"
    proof (cases "Suc k = size_buf b")
      case True
      then have "slot ?b' k = start b"
        using v full c sz unfolding valid_def incr_def begin_it_def start_of_storage_def slot_def
        by (auto split: if_splits)
      moreover have "length (tl (logical_contents b)) = k" using True len by simp
      ultimately show ?thesis using st by (simp add: nth_append)
    next
      case False
      then have k1: "Suc k < size_buf b" using k by simp
      have sl: "slot ?b' k = slot b (Suc k)"
        using v full c sz k1 unfolding valid_def incr_def begin_it_def start_of_storage_def slot_def
        by (auto split: if_splits)
      have "slot b (Suc k) \<noteq> start b"
        using v full c sz k1 unfolding valid_def slot_def by (auto split: if_splits)
      moreover have "0 \<le> slot b (Suc k)" using slot_range [OF v k1] by simp
      ultimately have ne: "nat (slot b (Suc k)) \<noteq> nat (start b)" using st by simp
      have kl: "k < length (tl (logical_contents b))" using k1 len by simp
      have "(tl (logical_contents b) @ [x]) ! k = logical_contents b ! Suc k"
        using kl by (simp add: nth_append nth_tl)
      then show ?thesis
        using sl ne contents_nth [OF v k1] by simp
    qed
  qed
  moreover have "capacity ?b' = capacity b" by (simp add: capacity_def start_of_storage_def)
  ultimately show ?thesis using run v' s' by simp
qed

lemma push_back_not_full:
  assumes v: "valid b" and nf: "finish b \<noteq> end_of_storage b"
    and room: "finish b + 1 \<noteq> start b" "finish b + 1 \<noteq> end_of_storage b \<or> start b = 0"
  shows "\<exists>b'. push_back x b = Some b' \<and> valid b' \<and> size_buf b' = size_buf b + 1 \<and>
           capacity b' = capacity b \<and> logical_contents b' = logical_contents b @ [x]"
proof -
  let ?b' = "b\<lparr>finish := finish b + 1, storage := (storage b)[nat (finish b) := x]\<rparr>"
  have f: "0 \<le> finish b" "finish b < end_of_storage b" "nat (finish b) < length (storage b)"
    using v nf unfolding valid_def by auto
  have d: "decr (b\<lparr>finish := finish b + 1\<rparr>) (end_it (b\<lparr>finish := finish b + 1\<rparr>)) = finish b"
    using room f unfolding decr_def end_it_def start_of_storage_def by (auto simp: Let_def)
  have run: "push_back x b = Some ?b'"
    using nf f d by (simp add: push_back_def store_def Let_def)
  have v': "valid ?b'" using v nf unfolding valid_def by auto
  have sz: "int (size_buf b) =
     (if start b \<le> finish b then finish b - start b
      else finish b + end_of_storage b - start b)" using size_valid [OF v] nf by simp
  have "int (size_buf ?b') = int (size_buf b) + 1"
    using size_valid [OF v'] v nf room sz unfolding valid_def by (auto split: if_splits)
  then have s': "size_buf ?b' = size_buf b + 1" by linarith
  have len: "length (logical_contents b) = size_buf b" using length_contents [OF v] .
  have "logical_contents ?b' = logical_contents b @ [x]"
  proof (rule contents_eqI [OF v'])
    show "size_buf ?b' = length (logical_contents b @ [x])" using s' len by simp
  next
    fix k assume "k < length (logical_contents b @ [x])"
    then have k: "k \<le> size_buf b" using len by simp
    have sl: "slot ?b' k = slot b k" by (simp add: slot_def)
    show "storage ?b' ! nat (slot ?b' k) = (logical_contents b @ [x]) ! k"
    proof (cases "k = size_buf b")
      case True
      then have "slot b k = finish b"
        using v nf sz unfolding valid_def slot_def by (auto split: if_splits)
      then show ?thesis using sl True len f by (simp add: nth_append)
    next
      case False
      then have k1: "k < size_buf b" using k by simp
      have "slot b k \<noteq> finish b" using cursor_neq_finish [OF v k1] k1 by (simp add: cursor_def)
      moreover have "0 \<le> slot b k" using slot_range [OF v k1] by simp
      ultimately have "nat (slot b k) \<noteq> nat (finish b)" using f by simp
      then show ?thesis
        using sl contents_nth [OF v k1] k1 len by (simp add: nth_append)
    qed
  qed
  moreover have "capacity ?b' = capacity b" by (simp add: capacity_def start_of_storage_def)
  ultimately show ?thesis using run v' s' by simp
qed

lemma pop_back_valid:
  assumes "valid b" and "\<not> empty_buf b"
  shows "\<exists>b'. pop_back b = Some b' \<and> valid b' \<and> size_buf b' = size_buf b - 1 \<and>
           capacity b' = capacity b \<and> logical_contents b' = butlast (logical_contents b)"
proof -
  let ?b' = "b\<lparr>finish := decr b (end_it b)\<rparr>"
  have sz: "int (size_buf b) =
     (if finish b = end_of_storage b then end_of_storage b
      else if start b \<le> finish b then finish b - start b
      else finish b + end_of_storage b - start b)" using size_valid [OF assms(1)] .
  have v': "valid ?b'"
    using assms sz unfolding valid_def empty_buf_def decr_def end_it_def start_of_storage_def
    by (auto simp: Let_def split: if_splits)
  have "int (size_buf ?b') = int (size_buf b) - 1"
    using size_valid [OF v'] assms sz
    unfolding valid_def empty_buf_def decr_def end_it_def start_of_storage_def
    by (auto simp: Let_def split: if_splits)
  then have s': "size_buf ?b' = size_buf b - 1" by linarith
  have "logical_contents ?b' = take (size_buf ?b') (logical_contents b)"
    by (rule prefix_contents [OF assms(1) v']) (simp_all add: s')
  then have "logical_contents ?b' = butlast (logical_contents b)"
    using s' length_contents [OF assms(1)] by (simp add: butlast_conv_take)
  moreover have "capacity ?b' = capacity b" by (simp add: capacity_def start_of_storage_def)
  ultimately show ?thesis using assms(2) v' s' by (simp add: pop_back_def)
qed

lemma pop_on_empty: "empty_buf b \<Longrightarrow> pop_back b = Some b \<and> pop_front b = Some b"
  by (simp add: pop_back_def pop_front_def)

lemma distance_end_begin:
  assumes "valid b" and "finish b \<noteq> end_of_storage b \<or> start b = 0"
  shows "distance b (end_it b) (begin_it b) = int (size_buf b)"
  using assms size_valid [OF assms(1)]
  unfolding valid_def distance_def end_it_def begin_it_def start_of_storage_def
  by (auto split: if_splits)

subsection \<open>Growing\<close>

text \<open>Beyond the capacity, and when the allocator delivers, \<^verbatim>\<open>resize(n, value)\<close> appends copies
  of the value, while \<^verbatim>\<open>resize(n)\<close> and \<^verbatim>\<open>reserve(n)\<close> only enlarge the block.\<close>

lemma resize_fill_realloc_grows:
  assumes v: "valid b" and n: "capacity b < n" "n \<le> max_size E" and a: "alloc_succeeds E n"
  shows "\<exists>b'. resize_fill E n x b = Returns () b' \<and> valid b' \<and> size_buf b' = n \<and>
           capacity b' = n \<and>
           logical_contents b' = logical_contents b @ replicate (n - size_buf b) x"
proof -
  let ?b' = "\<lparr>start = 0, finish = int n, end_of_storage = int n,
              storage = logical_contents b @ replicate (n - size_buf b) x\<rparr>"
  have m: "n < 2 ^ 63" using n(2) max_size_bound [of E] by simp
  have sn: "size_buf b < n" using size_le_capacity [OF v] n(1) by simp
  have len: "length (logical_contents b) = size_buf b" using length_contents [OF v] .
  have "reallocate_storage_filled E n x b = Returns () ?b'"
    by (rule reallocate_filled_grow [OF v _ a]) (use sn in simp)
  then have run: "resize_fill E n x b = Returns () ?b'"
    using n sn by (simp add: resize_fill_def)
  have v': "valid ?b'" using sn m len unfolding valid_def by auto
  have "size_buf ?b' = n" using size_valid [OF v'] by simp
  moreover have "capacity ?b' = n" using capacity_valid [OF v'] by simp
  moreover have "logical_contents ?b' = logical_contents b @ replicate (n - size_buf b) x"
    by (simp add: logical_contents_def)
  ultimately show ?thesis using run v' by simp
qed

lemma resize_realloc_keeps_size:
  assumes v: "valid b" and n: "capacity b < n" "n \<le> max_size E" and a: "alloc_succeeds E n"
  shows "\<exists>b'. resize E n b = Returns () b' \<and> capacity b' = n \<and> size_buf b' = size_buf b \<and>
           logical_contents b' = logical_contents b"
proof -
  let ?b' = "\<lparr>start = 0, finish = int (size_buf b), end_of_storage = int n,
                storage = logical_contents b @ replicate (n - size_buf b) (default_value E)\<rparr>"
  have m: "n < 2 ^ 63" using n(2) max_size_bound [of E] by simp
  have sn: "size_buf b < n" using size_le_capacity [OF v] n(1) by simp
  have "reallocate_storage_default E n b = Returns () ?b'"
    by (rule reallocate_grow [OF v _ a]) (use sn in simp)
  then have "resize E n b = Returns () ?b'"
    using n sn by (simp add: resize_def)
  then show ?thesis using grown_buffer [OF v sn m refl] by blast
qed

text \<open>\<^verbatim>\<open>reserve\<close> on a buffer that satisfies the invariant: the length failure first, nothing
  to do within the capacity, \<^verbatim>\<open>std::bad_alloc\<close> with the buffer untouched when the allocator
  fails, and otherwise a block of exactly \<open>n\<close> slots with the same size and content.\<close>

lemma reserve_on_valid:
  assumes "valid b" and "capacity b \<le> max_size E"
  shows "(if n > max_size E then
            reserve E n b = Throws length_error b \<and> resize E n b = Throws length_error b \<and>
            resize_fill E n x b = Throws length_error b
          else if n \<le> capacity b then reserve E n b = Returns () b
          else if \<not> alloc_succeeds E n then reserve E n b = Throws bad_alloc b
          else (\<exists>b'. reserve E n b = Returns () b' \<and> capacity b' = n \<and> size_buf b' = size_buf b \<and>
                     logical_contents b' = logical_contents b))"
proof -
  have sz: "size_buf b \<le> capacity b" using size_le_capacity [OF assms(1)] .
  have "\<exists>b'. reserve E n b = Returns () b' \<and> capacity b' = n \<and> size_buf b' = size_buf b \<and>
             logical_contents b' = logical_contents b"
    if le: "n \<le> max_size E" and gt: "capacity b < n" and a: "alloc_succeeds E n"
  proof -
    let ?b' = "\<lparr>start = 0, finish = int (size_buf b), end_of_storage = int n,
                storage = logical_contents b @ replicate (n - size_buf b) (default_value E)\<rparr>"
    have m: "n < 2 ^ 63" using le max_size_bound [of E] by simp
    have sn: "size_buf b < n" using sz gt by simp
    have "reallocate_storage_default E n b = Returns () ?b'"
      by (rule reallocate_grow [OF assms(1) _ a]) (use sn in simp)
    then have "reserve E n b = Returns () ?b'"
      using le gt by (simp add: reserve_def)
    then show ?thesis using grown_buffer [OF assms(1) sn m refl] by blast
  qed
  moreover have "reserve E n b = Throws bad_alloc b"
    if "n \<le> max_size E" and "capacity b < n" and "\<not> alloc_succeeds E n"
    using that sz by (simp add: reserve_def reallocate_storage_default_def allocate_fails)
  ultimately show ?thesis
    by (auto simp: reserve_def resize_def resize_fill_def)
qed

text \<open>The defects behind C3, C9 and C10 in general form.\<close>

lemma distance_full_offset:
  assumes "valid b" and "finish b = end_of_storage b"
  shows "distance b (end_it b) (begin_it b) = int (size_buf b) - start b"
  using assms size_valid [OF assms(1)]
  unfolding valid_def distance_def end_it_def begin_it_def by auto

lemma pop_front_full:
  assumes "finish b = end_of_storage b" and "\<not> empty_buf b"
  shows "\<exists>b'. pop_front b = Some b' \<and> size_buf b' = size_buf b"
  using assms by (simp add: pop_front_def size_buf_def start_of_storage_def)

lemma cend_eq_cbegin: "cend b = cbegin b"
  by (simp add: cend_def cbegin_def)

subsection \<open>Concrete runs\<close>

lemmas buf_defs = from_list_def push_back_def pop_back_def pop_front_def store_def deref_def
  begin_it_def end_it_def incr_def decr_def start_of_storage_def empty_buf_def size_buf_def
  capacity_def to_size_type_def distance_def plus_assign_def minus_assign_def plus_pos_def
  minus_pos_def swap_slots_def logical_contents_def

lemma max_size_int_traits: "max_size int_traits = 2305843009213693951"
  by (simp add: max_size_def int_traits_def)

lemma replicate_2: "replicate 2 x = [x, x]"
  by (simp add: numeral_2_eq_2)

lemma fields_int_traits:
  "default_value int_traits = 0" "raw_slot int_traits i = 0"
  "alloc_succeeds int_traits n \<longleftrightarrow> n \<le> 2 ^ 30"
  by (simp_all add: int_traits_def)

lemma rotate_example: "rotate 3 [4, 5, 6, 7, 8, 9 :: int] = [7, 8, 9, 4, 5, 6]"
  by (simp add: eval_nat_numeral)

lemma same_window_fields:
  "same_window b b' \<Longrightarrow> start b' = start b \<and> finish b' = finish b \<and> end_of_storage b' = end_of_storage b"
  by (simp add: same_window_def)

text \<open>The example of the specification: a full buffer of capacity 3 holding 1, 2, 1 takes 0 and
  holds 2, 1, 0.\<close>

lemma push_back_full_example:
  "push_back 0 (from_list [1, 2, 1 :: int]) = Some \<lparr>start = 1, finish = 3, end_of_storage = 3, storage = [0, 2, 1]\<rparr> \<and>
   logical_contents \<lparr>start = 1, finish = 3, end_of_storage = 3, storage = [0, 2, 1 :: int]\<rparr> = [2, 1, 0] \<and>
   size_buf \<lparr>start = 1, finish = 3, end_of_storage = 3, storage = [0, 2, 1 :: int]\<rparr> = 3 \<and>
   capacity \<lparr>start = 1, finish = 3, end_of_storage = 3, storage = [0, 2, 1 :: int]\<rparr> = 3"
  by (simp add: buf_defs)

text \<open>A wrapped window one short of full: \<^verbatim>\<open>finish++\<close> makes \<open>finish\<close> equal to \<open>start\<close>,
  \<^verbatim>\<open>--end()\<close> then yields \<open>end_of_storage\<close>, and the write lands outside the block.\<close>

lemma push_back_wrapped_out_of_bounds:
  "push_back 4 (from_list [1, 2, 3 :: int]) \<bind> pop_back =
     Some \<lparr>start = 1, finish = 0, end_of_storage = 3, storage = [4, 2, 3]\<rparr> \<and>
   size_buf \<lparr>start = 1, finish = 0, end_of_storage = 3, storage = [4, 2, 3 :: int]\<rparr> = 2 \<and>
   push_back 5 \<lparr>start = 1, finish = 0, end_of_storage = 3, storage = [4, 2, 3 :: int]\<rparr> = None"
  by (simp add: buf_defs)

text \<open>A full buffer of capacity 1: \<^verbatim>\<open>++begin()\<close> does not wrap because \<open>start\<close> is at the
  beginning of the block, so \<open>start\<close> is left at \<open>end_of_storage\<close>, outside the invariant; the
  next \<^verbatim>\<open>push_back\<close> writes there.\<close>

lemma push_back_capacity_one:
  "push_back 4 (from_list [1 :: int]) =
     Some \<lparr>start = 1, finish = 1, end_of_storage = 1, storage = [4]\<rparr> \<and>
   \<not> valid \<lparr>start = 1, finish = 1, end_of_storage = 1, storage = [4 :: int]\<rparr> \<and>
   push_back 5 \<lparr>start = 1, finish = 1, end_of_storage = 1, storage = [4 :: int]\<rparr> = None"
  by (simp add: buf_defs valid_def)

text \<open>\<^verbatim>\<open>assign\<close> on the two states of a capacity-1 buffer that lie outside the invariant:
  after \<^verbatim>\<open>push_back\<close> on the full buffer \<^verbatim>\<open>empty()\<close> is true although \<^verbatim>\<open>size()\<close> is 1, and
  \<^verbatim>\<open>assign\<close> does nothing; after \<^verbatim>\<open>erase(begin())\<close> \<^verbatim>\<open>empty()\<close> is false although \<^verbatim>\<open>size()\<close> is
  0, and \<^verbatim>\<open>assign\<close> divides by zero.\<close>

lemma assign_outside_invariant:
  "push_back 4 (from_list [1 :: int]) =
     Some \<lparr>start = 1, finish = 1, end_of_storage = 1, storage = [4]\<rparr> \<and>
   empty_buf \<lparr>start = 1, finish = 1, end_of_storage = 1, storage = [4 :: int]\<rparr> \<and>
   size_buf \<lparr>start = 1, finish = 1, end_of_storage = 1, storage = [4 :: int]\<rparr> = 1 \<and>
   assign [7, 8] \<lparr>start = 1, finish = 1, end_of_storage = 1, storage = [4 :: int]\<rparr> =
     Some \<lparr>start = 1, finish = 1, end_of_storage = 1, storage = [4]\<rparr> \<and>
   erase (begin_it (from_list [1 :: int])) (from_list [1 :: int]) =
     Some \<lparr>start = 1, finish = 0, end_of_storage = 1, storage = [1]\<rparr> \<and>
   \<not> empty_buf \<lparr>start = 1, finish = 0, end_of_storage = 1, storage = [1 :: int]\<rparr> \<and>
   size_buf \<lparr>start = 1, finish = 0, end_of_storage = 1, storage = [1 :: int]\<rparr> = 0 \<and>
   assign [7, 8] \<lparr>start = 1, finish = 0, end_of_storage = 1, storage = [1 :: int]\<rparr> = None"
  by (simp add: buf_defs assign_def erase_def erase_shift_down.simps)

text \<open>\<^verbatim>\<open>resize(n, value)\<close> within the capacity goes through \<^verbatim>\<open>end() + n\<close>: on two elements in a
  block of five, a request for two more reduces the offset to \<open>2 mod 2 = 0\<close> and nothing is
  added; on an empty buffer with a block of three the remainder is taken by zero.\<close>

lemma resize_fill_within_capacity:
  "resize_fill int_traits 4 7 \<lparr>start = 0, finish = 2, end_of_storage = 5, storage = [1, 2, 3, 4, 5]\<rparr> =
     Returns () \<lparr>start = 0, finish = 2, end_of_storage = 5, storage = [1, 2, 3, 4, 5]\<rparr> \<and>
   resize_fill int_traits 2 7 \<lparr>start = 0, finish = 0, end_of_storage = 3, storage = [0, 0, 0]\<rparr> =
     Undefined"
  by (simp add: buf_defs resize_fill_def max_size_int_traits finished_def
      uninitialized_fill_n_def fill_n_def fill_a.simps)

section \<open>The claims\<close>

text \<open>
  C1 (\<^verbatim>\<open>push_back\<close>, evicting variant). The claim: on a buffer that is not full, \<^verbatim>\<open>push_back\<close>
  increases the size by one and appends the value; on a full buffer it drops the front element
  and appends the value, size and capacity unchanged. The code does so on a full buffer
  (\<open>push_back_full\<close>) and on a buffer that is not full as long as the new \<open>finish\<close> neither
  reaches \<open>end_of_storage\<close> with \<open>start\<close> off the beginning of the block nor meets \<open>start\<close>
  (\<open>push_back_not_full\<close>). It fails otherwise (also on a full buffer of capacity 1,
  \<open>push_back_capacity_one\<close>): from \<open>{1,2,3}\<close>, after \<^verbatim>\<open>pop_back\<close> and
  \<^verbatim>\<open>pop_front\<close> the buffer holds the single element 2 in a block of three; \<^verbatim>\<open>push_back(9)\<close>
  moves \<open>finish\<close> onto \<open>end_of_storage\<close>, which marks the window as full, and writes 9 before
  \<open>start\<close>: the size goes from 1 to 3 and the content is 2, 3, 9, with the popped 3 back in the
  window.
\<close>

theorem C1_push_back_not_full_overshoots:
  "pop_back (from_list [1, 2, 3 :: int]) \<bind> pop_front =
     Some \<lparr>start = 1, finish = 2, end_of_storage = 3, storage = [1, 2, 3]\<rparr> \<and>
   size_buf \<lparr>start = 1, finish = 2, end_of_storage = 3, storage = [1, 2, 3 :: int]\<rparr> = 1 \<and>
   logical_contents \<lparr>start = 1, finish = 2, end_of_storage = 3, storage = [1, 2, 3 :: int]\<rparr> = [2] \<and>
   push_back 9 \<lparr>start = 1, finish = 2, end_of_storage = 3, storage = [1, 2, 3 :: int]\<rparr> =
     Some \<lparr>start = 1, finish = 3, end_of_storage = 3, storage = [9, 2, 3]\<rparr> \<and>
   size_buf \<lparr>start = 1, finish = 3, end_of_storage = 3, storage = [9, 2, 3 :: int]\<rparr> = 3 \<and>
   logical_contents \<lparr>start = 1, finish = 3, end_of_storage = 3, storage = [9, 2, 3 :: int]\<rparr> = [2, 3, 9] \<and>
   map (index_buf \<lparr>start = 1, finish = 3, end_of_storage = 3, storage = [9, 2, 3 :: int]\<rparr>) [0, 1, 2] =
     [Some 2, Some 3, Some 9]"
  by (simp add: buf_defs index_buf_def it_index_def)

text \<open>
  C2 (size never exceeds capacity). The claim: in every state reachable by public operations,
  \<^verbatim>\<open>size() <= capacity()\<close>. While both markers lie inside the block this holds
  (\<open>size_le_capacity\<close>), but \<^verbatim>\<open>erase\<close> can move \<open>finish\<close> below the block: from \<open>{1,2,3}\<close>,
  \<^verbatim>\<open>push_back(4)\<close> and \<^verbatim>\<open>pop_back()\<close> leave a wrapped window with \<open>finish\<close> at
  \<open>start_of_storage\<close>; \<^verbatim>\<open>erase(begin() + 1)\<close> takes its first branch and decrements \<open>finish\<close>;
  two more \<^verbatim>\<open>pop_back()\<close> calls, neither of which sees \<^verbatim>\<open>empty()\<close>, decrement it twice more. The
  sum in \<^verbatim>\<open>size()\<close> is then \<open>-1\<close>, returned as the \<^verbatim>\<open>size_type\<close> \<open>2 ^ 64 - 1\<close>, with capacity 3.
\<close>

theorem C2_size_exceeds_capacity:
  "do { b \<leftarrow> push_back 4 (from_list [1, 2, 3 :: int]);
        b \<leftarrow> pop_back b;
        p \<leftarrow> plus_assign b (begin_it b) 1;
        b \<leftarrow> erase p b;
        b \<leftarrow> pop_back b;
        pop_back b } =
     Some \<lparr>start = 1, finish = - 3, end_of_storage = 3, storage = [4, 3, 2]\<rparr> \<and>
   size_buf \<lparr>start = 1, finish = - 3, end_of_storage = 3, storage = [4, 3, 2 :: int]\<rparr> = 18446744073709551615 \<and>
   capacity \<lparr>start = 1, finish = - 3, end_of_storage = 3, storage = [4, 3, 2 :: int]\<rparr> = 3"
  by (simp add: buf_defs erase_def erase_shift_up.simps)

text \<open>
  C3 (iterator subtraction). The claim: subtraction follows the three-branch rule of
  \<open>distance\<close>, and in particular \<^verbatim>\<open>end() - begin()\<close> is \<^verbatim>\<open>size()\<close> for every buffer, full at any
  front offset included. The first branch tests \<^verbatim>\<open>start <= finish\<close>, which also holds for a
  full window whose front is off the beginning of the block (\<open>finish\<close> is then
  \<open>end_of_storage\<close>): there the raw difference is returned, short by the front offset
  (\<open>distance_full_offset\<close>). For
  all other windows the distance is the size (\<open>distance_end_begin\<close>). After \<^verbatim>\<open>push_back(4)\<close> on
  \<open>{1,2,3}\<close> the buffer is full with its front at slot 1: \<^verbatim>\<open>end() - begin()\<close> is 2, the size 3.
\<close>

theorem C3_full_offset_distance:
  "push_back 4 (from_list [1, 2, 3 :: int]) =
     Some \<lparr>start = 1, finish = 3, end_of_storage = 3, storage = [4, 2, 3]\<rparr> \<and>
   distance \<lparr>start = 1, finish = 3, end_of_storage = 3, storage = [4, 2, 3 :: int]\<rparr>
     (end_it \<lparr>start = 1, finish = 3, end_of_storage = 3, storage = [4, 2, 3 :: int]\<rparr>)
     (begin_it \<lparr>start = 1, finish = 3, end_of_storage = 3, storage = [4, 2, 3 :: int]\<rparr>) = 2 \<and>
   size_buf \<lparr>start = 1, finish = 3, end_of_storage = 3, storage = [4, 2, 3 :: int]\<rparr> = 3"
  by (simp add: buf_defs)

text \<open>
  C4 (\<^verbatim>\<open>assign\<close> of a long range). The claim: on a non-empty buffer, a source longer than the
  capacity leaves size and capacity unchanged and stores the last \<^verbatim>\<open>capacity\<close> source elements,
  rotated by the front offset. The copying loops run over the window only, so the buffer ends
  with the last \<^verbatim>\<open>size()\<close> source elements; and in logical order the rotation does not depend
  on the front offset but on the source length: the last \<open>n mod size\<close> source elements come
  first. A buffer holding two elements in a block of three, assigned 1, 2, 3, 4, ends with
  3, 4 and not with a rotation of 2, 3, 4.
\<close>

theorem C4_counterexample:
  "pop_back (from_list [1, 2, 3 :: int]) =
     Some \<lparr>start = 0, finish = 2, end_of_storage = 3, storage = [1, 2, 3]\<rparr> \<and>
   \<not> empty_buf \<lparr>start = 0, finish = 2, end_of_storage = 3, storage = [1, 2, 3 :: int]\<rparr> \<and>
   capacity \<lparr>start = 0, finish = 2, end_of_storage = 3, storage = [1, 2, 3 :: int]\<rparr> = 3 \<and>
   assign [1, 2, 3, 4] \<lparr>start = 0, finish = 2, end_of_storage = 3, storage = [1, 2, 3 :: int]\<rparr> =
     Some \<lparr>start = 0, finish = 2, end_of_storage = 3, storage = [3, 4, 3]\<rparr> \<and>
   logical_contents \<lparr>start = 0, finish = 2, end_of_storage = 3, storage = [3, 4, 3 :: int]\<rparr> = [3, 4]"
  by (simp add: assign_def buf_defs)

text \<open>
  C4 as amended: for every buffer that satisfies the invariant \<open>valid\<close> (the block has
  \<open>end_of_storage\<close> slots, fewer than \<open>2 ^ 63\<close>, \<open>finish\<close> lies within
  \<open>[start_of_storage, end_of_storage]\<close> and \<open>start\<close> on a slot of the block) and
  for which \<^verbatim>\<open>empty()\<close> is false, and every source that is a range of plain pointers (an
  initializer list) longer than the capacity, \<^verbatim>\<open>assign\<close> returns, leaves the markers (so size
  and capacity) unchanged, and the logical content is the last \<^verbatim>\<open>size()\<close> elements of the source
  rotated left by \<open>size - n mod size\<close>, where \<open>n\<close> is the source length. The capacity-1 states
  with \<open>start\<close> at \<open>end_of_storage\<close>, which \<^verbatim>\<open>push_back\<close> and \<^verbatim>\<open>erase\<close> leave behind
  (\<open>assign_outside_invariant\<close>), and a source handed over as buffer iterators, whose length is
  measured by the iterator subtraction of C3, are not part of the amended claim.
\<close>

theorem C4_assign_keeps_last_size_elements:
  assumes "valid b" and "\<not> empty_buf b" and "capacity b < length src"
  shows "\<exists>b'. assign src b = Some b' \<and>
           start b' = start b \<and> finish b' = finish b \<and> end_of_storage b' = end_of_storage b \<and>
           size_buf b' = size_buf b \<and> capacity b' = capacity b \<and>
           logical_contents b' =
             rotate (size_buf b - length src mod size_buf b) (drop (length src - size_buf b) src)"
proof -
  let ?s = "size_buf b" and ?n = "length src"
  let ?r = "?n mod ?s"
  let ?L = "drop (?n - ?s) src"
  have s0: "0 < ?s" using nonempty_size [OF assms(1,2)] .
  have long: "?s \<le> ?n" using size_le_capacity [OF assms(1)] assms(3) by simp
  obtain b' where b': "assign src b = Some b'" "same_window b b'"
      "logical_contents b' = drop (?n - ?r) src @ take (?s - ?r) ?L"
    using assign_valid [OF assms(1,2) long] by blast
  have lenL: "length ?L = ?s" using long by simp
  have r_lt: "?r < ?s" using s0 by simp
  have "rotate (?s - ?r) ?L = drop (?n - ?r) src @ take (?s - ?r) ?L"
  proof (cases "?r = 0")
    case True
    then show ?thesis using lenL by (simp add: rotate_drop_take)
  next
    case False
    then have "(?s - ?r) mod ?s = ?s - ?r" using r_lt by simp
    moreover have "?s - ?r + (?n - ?s) = ?n - ?r" using long r_lt by simp
    ultimately show ?thesis using lenL by (simp add: rotate_drop_take)
  qed
  then show ?thesis
    using b' same_window_fields [OF b'(2)] same_window_size [OF b'(2)] same_window_capacity [OF b'(2)]
    by auto
qed

text \<open>The values of the repository's test, the source handed over as a list: a full buffer of
  capacity 6 assigned 1 to 9 holds 7, 8, 9, 4, 5, 6.\<close>

theorem C4_assign_witness:
  "valid (from_list [11, 12, 13, 14, 15, 16 :: int]) \<and>
   \<not> empty_buf (from_list [11, 12, 13, 14, 15, 16 :: int]) \<and>
   capacity (from_list [11, 12, 13, 14, 15, 16 :: int]) < length [1, 2, 3, 4, 5, 6, 7, 8, 9 :: int] \<and>
   (\<exists>b'. assign [1, 2, 3, 4, 5, 6, 7, 8, 9] (from_list [11, 12, 13, 14, 15, 16 :: int]) = Some b' \<and>
         size_buf b' = 6 \<and> capacity b' = 6 \<and> logical_contents b' = [7, 8, 9, 4, 5, 6])"
proof -
  let ?B = "from_list [11, 12, 13, 14, 15, 16 :: int]"
  have v: "valid ?B" by (rule valid_from_list) simp
  have ne: "\<not> empty_buf ?B" by (simp add: empty_buf_def from_list_def)
  have c: "capacity ?B = 6" and s: "size_buf ?B = 6" by (simp_all add: buf_defs)
  have lt: "capacity ?B < length [1, 2, 3, 4, 5, 6, 7, 8, 9 :: int]" using c by simp
  have r: "rotate (6 - 9 mod 6) (drop (9 - 6) [1, 2, 3, 4, 5, 6, 7, 8, 9 :: int]) = [7, 8, 9, 4, 5, 6]"
    using rotate_example by simp
  obtain b' where b': "assign [1, 2, 3, 4, 5, 6, 7, 8, 9] ?B = Some b'"
      "size_buf b' = size_buf ?B" "capacity b' = capacity ?B"
      "logical_contents b' =
         rotate (size_buf ?B - length [1, 2, 3, 4, 5, 6, 7, 8, 9 :: int] mod size_buf ?B)
           (drop (length [1, 2, 3, 4, 5, 6, 7, 8, 9 :: int] - size_buf ?B) [1, 2, 3, 4, 5, 6, 7, 8, 9])"
    using C4_assign_keeps_last_size_elements [OF v ne lt] by blast
  have "logical_contents b' = [7, 8, 9, 4, 5, 6]"
    using b'(4) r by (simp add: s)
  then show ?thesis
    using v ne lt b'(1,2,3) s c by simp
qed

text \<open>
  C5 (\<^verbatim>\<open>resize\<close> growing). The claim: for \<open>size < n \<le> max_size\<close>, \<^verbatim>\<open>resize(n)\<close> and
  \<^verbatim>\<open>resize(n, value)\<close> leave the size at \<open>n\<close>. When \<open>n\<close> exceeds the capacity, \<^verbatim>\<open>resize(n)\<close> calls
  \<^verbatim>\<open>_reallocate_storage_default\<close>, which constructs the new trailing elements but sets
  \<open>finish\<close> to the end of the relocated elements: the size stays what it was.
  (\<open>resize_realloc_keeps_size\<close>). \<^verbatim>\<open>_reallocate_storage_filled\<close> sets \<open>finish\<close> to the end of
  the block, so beyond the capacity \<^verbatim>\<open>resize(n, value)\<close> grows as claimed
  (\<open>resize_fill_realloc_grows\<close>). On \<open>{1,2,3}\<close>, \<^verbatim>\<open>resize(5)\<close> gives capacity 5 and size 3;
  \<^verbatim>\<open>resize(5, 7)\<close> gives size 5.
\<close>

theorem C5_resize_default_keeps_size:
  "resize int_traits 5 (from_list [1, 2, 3]) =
     Returns () \<lparr>start = 0, finish = 3, end_of_storage = 5, storage = [1, 2, 3, 0, 0]\<rparr> \<and>
   size_buf \<lparr>start = 0, finish = 3, end_of_storage = 5, storage = [1, 2, 3, 0, 0 :: int]\<rparr> = 3 \<and>
   resize_fill int_traits 5 7 (from_list [1, 2, 3]) =
     Returns () \<lparr>start = 0, finish = 5, end_of_storage = 5, storage = [1, 2, 3, 7, 7]\<rparr> \<and>
   size_buf \<lparr>start = 0, finish = 5, end_of_storage = 5, storage = [1, 2, 3, 7, 7 :: int]\<rparr> = 5"
  by (simp add: buf_defs resize_def resize_fill_def max_size_int_traits finished_def
      reallocate_storage_default_def reallocate_storage_filled_def fill_raw_def allocate_def
      relocate.simps fields_int_traits upt_rec replicate_2)




text \<open>
  C7 (\<^verbatim>\<open>at\<close>). The claim: \<^verbatim>\<open>at(k)\<close> reports a range failure for every \<open>k \<ge> size\<close> and
  yields the element at position \<open>k\<close> for \<open>k < size\<close>. \<^verbatim>\<open>at\<close> is the checked accessor of the
  class: it is declared without \<^verbatim>\<open>noexcept\<close> where \<^verbatim>\<open>operator[]\<close> is \<^verbatim>\<open>noexcept\<close>. But the
  body of \<^verbatim>\<open>CBuffIterator::at\<close> is that of \<^verbatim>\<open>operator[]\<close>: the index is reduced modulo the size
  and nothing is thrown. For \<open>k < size\<close> the element at position \<open>k\<close> comes back
  (\<open>at_buf_valid\<close>); past the end the check is missing: on \<open>{10,20,30}\<close>, \<^verbatim>\<open>at(5)\<close> returns 30.
\<close>

theorem C7_at_past_the_end_returns:
  "size_buf (from_list [10, 20, 30 :: int]) = 3 \<and>
   at_buf (from_list [10, 20, 30 :: int]) 5 = Returns 30 (from_list [10, 20, 30])"
  by (simp add: at_buf_def it_at_def buf_defs)

text \<open>
  C8 (\<^verbatim>\<open>reserve\<close> and the length failure). The claim: beyond \<^verbatim>\<open>max_size()\<close>, \<^verbatim>\<open>reserve(n)\<close>
  and \<^verbatim>\<open>resize(n)\<close> report a length failure and change nothing; within the capacity
  \<^verbatim>\<open>reserve(n)\<close> changes nothing; in between it sets the capacity to \<open>n\<close> and keeps size and
  order, for every buffer. On a buffer that satisfies the invariant the code does so whenever
  the allocator delivers the block (\<open>reserve_on_valid\<close>). But \<^verbatim>\<open>reserve\<close> relocates the range
  from \<^verbatim>\<open>begin()\<close> to \<^verbatim>\<open>end()\<close>, and on a full buffer of capacity 1 \<^verbatim>\<open>push_back\<close> leaves
  \<open>start\<close> at \<open>end_of_storage\<close>, where \<open>finish\<close> is: the two iterators are equal although
  \<^verbatim>\<open>size()\<close> is 1. After \<^verbatim>\<open>push_back(4)\<close> on \<open>{1}\<close> the buffer holds 4; \<^verbatim>\<open>reserve(3)\<close> copies
  nothing into the new block and the buffer is empty.
\<close>

theorem C8_reserve_loses_element:
  "push_back 4 (from_list [1 :: int]) =
     Some \<lparr>start = 1, finish = 1, end_of_storage = 1, storage = [4]\<rparr> \<and>
   size_buf \<lparr>start = 1, finish = 1, end_of_storage = 1, storage = [4 :: int]\<rparr> = 1 \<and>
   capacity \<lparr>start = 1, finish = 1, end_of_storage = 1, storage = [4 :: int]\<rparr> = 1 \<and>
   index_buf \<lparr>start = 1, finish = 1, end_of_storage = 1, storage = [4 :: int]\<rparr> 0 = Some 4 \<and>
   reserve int_traits 3 \<lparr>start = 1, finish = 1, end_of_storage = 1, storage = [4]\<rparr> =
     Returns () \<lparr>start = 0, finish = 0, end_of_storage = 3, storage = [0, 0, 0]\<rparr> \<and>
   capacity \<lparr>start = 0, finish = 0, end_of_storage = 3, storage = [0, 0, 0 :: int]\<rparr> = 3 \<and>
   size_buf \<lparr>start = 0, finish = 0, end_of_storage = 3, storage = [0, 0, 0 :: int]\<rparr> = 0"
  by (simp add: buf_defs index_buf_def it_index_def reserve_def max_size_int_traits finished_def
      reallocate_storage_default_def fill_raw_def allocate_def relocate.simps fields_int_traits
      upt_rec replicate_2)

text \<open>
  C9 (\<^verbatim>\<open>pop_back\<close> and \<^verbatim>\<open>pop_front\<close>). The claim: both do nothing on an empty buffer
  (\<open>pop_on_empty\<close>) and otherwise remove the element at their end, the size going down by one.
  \<^verbatim>\<open>pop_back\<close> does (\<open>pop_back_valid\<close>), and so does \<^verbatim>\<open>pop_front\<close> on a buffer that is not full
  (\<open>pop_front_not_full\<close>). On a full buffer \<^verbatim>\<open>pop_front\<close> advances \<open>start\<close> and leaves \<open>finish\<close>
  at \<open>end_of_storage\<close>, which still marks the window as full (\<open>pop_front_full\<close>):
  \<open>{0,1,2,3,4}\<close> keeps size 5, and
  the popped 0 is now its last element.
\<close>

theorem C9_pop_front_full_keeps_size:
  "size_buf (from_list [0, 1, 2, 3, 4 :: int]) = 5 \<and>
   pop_front (from_list [0, 1, 2, 3, 4 :: int]) =
     Some \<lparr>start = 1, finish = 5, end_of_storage = 5, storage = [0, 1, 2, 3, 4]\<rparr> \<and>
   size_buf \<lparr>start = 1, finish = 5, end_of_storage = 5, storage = [0, 1, 2, 3, 4 :: int]\<rparr> = 5 \<and>
   logical_contents \<lparr>start = 1, finish = 5, end_of_storage = 5, storage = [0, 1, 2, 3, 4 :: int]\<rparr> = [1, 2, 3, 4, 0] \<and>
   index_buf \<lparr>start = 1, finish = 5, end_of_storage = 5, storage = [0, 1, 2, 3, 4 :: int]\<rparr> 4 = Some 0"
  by (simp add: buf_defs index_buf_def it_index_def)

text \<open>
  C10 (\<^verbatim>\<open>cbegin\<close> and \<^verbatim>\<open>cend\<close>). The claim: \<^verbatim>\<open>cend()\<close> marks the position of \<^verbatim>\<open>end()\<close>, so
  that going from \<^verbatim>\<open>cbegin()\<close> to \<^verbatim>\<open>cend()\<close> visits the \<^verbatim>\<open>size()\<close> elements. \<^verbatim>\<open>cend()\<close> is
  built from \<open>start\<close>, as \<^verbatim>\<open>cbegin()\<close> is (\<open>cend_eq_cbegin\<close>), where \<^verbatim>\<open>end()\<close> takes \<open>finish\<close>:
  on \<open>{1,2,3}\<close> the two
  read-only iterators are equal and the range between them is empty.
\<close>

theorem C10_cend_is_cbegin:
  "cend (from_list [1, 2, 3 :: int]) = cbegin (from_list [1, 2, 3]) \<and>
   cend (from_list [1, 2, 3 :: int]) = 0 \<and> end_it (from_list [1, 2, 3 :: int]) = 3 \<and>
   size_buf (from_list [1, 2, 3 :: int]) = 3"
  by (simp add: cend_def cbegin_def buf_defs)

end
